theory Spec2Isabelle
  imports Main "HOL-Library.List_Lexorder" "HOL-Library.Char_ord"
begin

section \<open>Library functions the package calls\<close>

text \<open>
  The package \<open>fielder\<close> calls \<open>strconv\<close> and \<open>time\<close> of the Go standard
  library (Go 1.22) and \<open>github.com/shopspring/decimal\<close> (v1.4.0). These are
  not part of the package. The functions it calls are modelled here by what
  they compute on byte strings: \<open>strconv.Itoa\<close>, \<open>Atoi\<close>, \<open>FormatBool\<close>,
  \<open>ParseBool\<close>; \<open>Time.Format\<close> and \<open>time.Parse\<close> with the layout \<open>time.RFC3339\<close>,
  \<open>Time.Equal\<close>, \<open>Before\<close>, \<open>After\<close>, \<open>IsZero\<close>; \<open>Decimal.String\<close>,
  \<open>decimal.NewFromString\<close>, \<open>Equal\<close>, \<open>LessThan\<close>, \<open>GreaterThan\<close>, \<open>IsZero\<close>.
  Go compares strings byte by byte, which is the lexicographic order on
  \<open>char list\<close>.
\<close>

subsection \<open>Decimal digits\<close>

definition isDigit :: "char \<Rightarrow> bool" where
  "isDigit c = (CHR ''0'' \<le> c \<and> c \<le> CHR ''9'')"

definition digit_char :: "nat \<Rightarrow> char" where
  \<comment> \<open>the table of digits; only read at \<open>d < 10\<close>\<close>
  "digit_char d = ''0123456789'' ! d"

definition digit_val :: "char \<Rightarrow> nat" where
  "digit_val c = of_char c - 48"

function digits :: "nat \<Rightarrow> string" where
  "digits n = (if n < 10 then [digit_char n] else digits (n div 10) @ [digit_char (n mod 10)])"
  by pat_completeness auto
termination
  by (relation "measure (\<lambda>n. n)") auto

declare digits.simps [simp del]

definition digits_value :: "string \<Rightarrow> nat" where
  "digits_value s = foldl (\<lambda>n c. n * 10 + digit_val c) 0 s"

definition slice :: "'a list \<Rightarrow> nat \<Rightarrow> nat \<Rightarrow> 'a list" where
  \<comment> \<open>Go's \<open>s[i:j]\<close>, for \<open>i \<le> j \<le> len(s)\<close>\<close>
  "slice s i j = take (j - i) (drop i s)"

subsection \<open>strconv\<close>

datatype NumError = ErrSyntax | ErrRange

definition Itoa :: "int \<Rightarrow> string" where
  "Itoa i = (if i < 0 then CHR ''-'' # digits (nat (- i)) else digits (nat i))"

definition maxInt :: int where
  "maxInt = 2 ^ 63 - 1"

definition minInt :: int where
  "minInt = - (2 ^ 63)"

definition Atoi :: "string \<Rightarrow> int \<times> NumError option" where
  \<comment> \<open>an optional sign, then one or more decimal digits; a numeral outside
      the 64-bit \<open>int\<close> is returned clamped, with the range error\<close>
  "Atoi s =
     (let neg = (s \<noteq> [] \<and> hd s = CHR ''-'');
          ds = (if s \<noteq> [] \<and> (hd s = CHR ''-'' \<or> hd s = CHR ''+'') then tl s else s)
      in if ds = [] \<or> \<not> list_all isDigit ds then (0, Some ErrSyntax)
         else let un = int (digits_value ds)
              in if \<not> neg \<and> un \<ge> 2 ^ 63 then (maxInt, Some ErrRange)
                 else if neg \<and> un > 2 ^ 63 then (minInt, Some ErrRange)
                 else (if neg then - un else un, None))"

definition FormatBool :: "bool \<Rightarrow> string" where
  "FormatBool b = (if b then ''true'' else ''false'')"

definition ParseBool :: "string \<Rightarrow> bool \<times> NumError option" where
  "ParseBool str =
     (if str \<in> set [''1'', ''t'', ''T'', ''true'', ''TRUE'', ''True''] then (True, None)
      else if str \<in> set [''0'', ''f'', ''F'', ''false'', ''FALSE'', ''False''] then (False, None)
      else (False, Some ErrSyntax))"

subsection \<open>time.Time with the layout RFC3339\<close>

text \<open>
  A \<open>time.Time\<close> is an instant together with a location. It is modelled by the
  calendar reading of the instant in its location (the fields that \<open>Format\<close>
  prints), the nanosecond within the second, and the offset of the location
  in seconds east of UTC.
\<close>

record Time =
  t_year :: int
  t_month :: int
  t_day :: int
  t_hour :: int
  t_min :: int
  t_sec :: int
  t_nsec :: int
  t_offset :: int

definition isLeap :: "int \<Rightarrow> bool" where
  "isLeap y = (y mod 4 = 0 \<and> (y mod 100 \<noteq> 0 \<or> y mod 400 = 0))"

definition daysIn :: "int \<Rightarrow> int \<Rightarrow> int" where
  "daysIn m y =
     (if m = 2 then (if isLeap y then 29 else 28)
      else if m = 4 \<or> m = 6 \<or> m = 9 \<or> m = 11 then 30 else 31)"

definition daysBefore :: "int \<Rightarrow> int \<Rightarrow> int" where
  \<comment> \<open>days of the year \<open>y\<close> before its month \<open>m\<close>\<close>
  "daysBefore m y = (\<Sum>k \<leftarrow> [1 ..< nat m]. daysIn (int k) y)"

definition daysSinceEpoch :: "int \<Rightarrow> int" where
  \<comment> \<open>days from January 1 of the year 1 to January 1 of the year \<open>y\<close>\<close>
  "daysSinceEpoch y =
     365 * (y - 1) + (y - 1) div 4 - (y - 1) div 100 + (y - 1) div 400"

definition valid_Time :: "Time \<Rightarrow> bool" where
  "valid_Time t =
     (1 \<le> t_month t \<and> t_month t \<le> 12 \<and>
      1 \<le> t_day t \<and> t_day t \<le> daysIn (t_month t) (t_year t) \<and>
      0 \<le> t_hour t \<and> t_hour t \<le> 23 \<and>
      0 \<le> t_min t \<and> t_min t \<le> 59 \<and>
      0 \<le> t_sec t \<and> t_sec t \<le> 59 \<and>
      0 \<le> t_nsec t \<and> t_nsec t < 1000000000)"

definition instant :: "Time \<Rightarrow> int \<times> int" where
  \<comment> \<open>seconds since January 1 of the year 1, 00:00:00 UTC, and nanoseconds\<close>
  "instant t =
     (((daysSinceEpoch (t_year t) + daysBefore (t_month t) (t_year t) + (t_day t - 1)) * 86400
        + t_hour t * 3600 + t_min t * 60 + t_sec t) - t_offset t,
      t_nsec t)"


definition time_Equal :: "Time \<Rightarrow> Time \<Rightarrow> bool" where
  "time_Equal t u = (instant t = instant u)"

definition time_Before :: "Time \<Rightarrow> Time \<Rightarrow> bool" where
  "time_Before t u =
     (fst (instant t) < fst (instant u) \<or>
      (fst (instant t) = fst (instant u) \<and> snd (instant t) < snd (instant u)))"

definition time_After :: "Time \<Rightarrow> Time \<Rightarrow> bool" where
  "time_After t u =
     (fst (instant t) > fst (instant u) \<or>
      (fst (instant t) = fst (instant u) \<and> snd (instant t) > snd (instant u)))"

definition time_IsZero :: "Time \<Rightarrow> bool" where
  "time_IsZero t = (instant t = (0, 0))"

definition appendInt :: "int \<Rightarrow> nat \<Rightarrow> string" where
  \<comment> \<open>a sign for a negative number, then its digits padded with zeros to the width\<close>
  "appendInt x width =
     (let ds = digits (nat \<bar>x\<bar>)
      in (if x < 0 then ''-'' else '''') @ replicate (width - length ds) CHR ''0'' @ ds)"

definition format_zone :: "int \<Rightarrow> string" where
  "format_zone offset =
     (if offset = 0 then ''Z''
      else let zone = (if offset < 0 then - ((- offset) div 60) else offset div 60)
           in (if zone < 0 then ''-'' else ''+'') @
              appendInt (\<bar>zone\<bar> div 60) 2 @ '':'' @ appendInt (\<bar>zone\<bar> mod 60) 2)"

definition time_Format :: "Time \<Rightarrow> string" where
  \<comment> \<open>\<open>t.Format(time.RFC3339)\<close>: the layout has no fractional seconds\<close>
  "time_Format t =
     appendInt (t_year t) 4 @ ''-'' @ appendInt (t_month t) 2 @ ''-'' @ appendInt (t_day t) 2 @
     ''T'' @ appendInt (t_hour t) 2 @ '':'' @ appendInt (t_min t) 2 @ '':'' @
     appendInt (t_sec t) 2 @ format_zone (t_offset t)"

definition parseUint :: "string \<Rightarrow> int \<Rightarrow> int \<Rightarrow> int option" where
  "parseUint s lo hi =
     (if \<not> list_all isDigit s then None
      else let x = int (digits_value s) in if x < lo \<or> hi < x then None else Some x)"

definition parseNanoseconds :: "string \<Rightarrow> int" where
  \<comment> \<open>the argument is the period and the digits after it; at most nine digits count\<close>
  "parseNanoseconds v =
     (let ds = take 9 (tl v) in int (digits_value ds) * 10 ^ (9 - length ds))"

definition parse_zone :: "string \<Rightarrow> int option" where
  "parse_zone s =
     (if s = ''Z'' then Some 0
      else if length s \<noteq> 6 then None
      else Option.bind (parseUint (slice s 1 3) 0 23) (\<lambda>hr.
           Option.bind (parseUint (slice s 4 6) 0 59) (\<lambda>mm.
             if (s ! 0 = CHR ''-'' \<or> s ! 0 = CHR ''+'') \<and> s ! 3 = CHR '':''
             then Some (if s ! 0 = CHR ''-'' then - ((hr * 60 + mm) * 60) else (hr * 60 + mm) * 60)
             else None)))"

definition parse_frac :: "string \<Rightarrow> int \<times> string" where
  \<comment> \<open>the optional fractional second after the seconds, and the rest of the text\<close>
  "parse_frac r =
     (if length r \<ge> 2 \<and> r ! 0 = CHR ''.'' \<and> isDigit (r ! 1)
      then let n = 1 + length (takeWhile isDigit (tl r))
           in (parseNanoseconds (take n r), drop n r)
      else (0, r))"

definition time_Parse :: "string \<Rightarrow> Time option" where
  \<comment> \<open>\<open>time.Parse(time.RFC3339, s)\<close>, \<open>None\<close> for an error. Strings that only
      the lenient fallback of \<open>time.Parse\<close> accepts count as errors; \<open>Format\<close>
      prints none of them.\<close>
  "time_Parse s =
     (if length s < 19 then None
      else
        Option.bind (parseUint (slice s 0 4) 0 9999) (\<lambda>y.
        Option.bind (parseUint (slice s 5 7) 1 12) (\<lambda>mo.
        Option.bind (parseUint (slice s 8 10) 1 (daysIn mo y)) (\<lambda>d.
        Option.bind (parseUint (slice s 11 13) 0 23) (\<lambda>h.
        Option.bind (parseUint (slice s 14 16) 0 59) (\<lambda>mi.
        Option.bind (parseUint (slice s 17 19) 0 59) (\<lambda>sc.
          if \<not> (s ! 4 = CHR ''-'' \<and> s ! 7 = CHR ''-'' \<and> s ! 10 = CHR ''T'' \<and>
                 s ! 13 = CHR '':'' \<and> s ! 16 = CHR '':'') then None
          else Option.bind (parse_zone (snd (parse_frac (drop 19 s)))) (\<lambda>off.
                 Some \<lparr>t_year = y, t_month = mo, t_day = d, t_hour = h, t_min = mi,
                       t_sec = sc, t_nsec = fst (parse_frac (drop 19 s)), t_offset = off\<rparr>))))))))"

subsection \<open>decimal.Decimal\<close>

text \<open>A \<open>Decimal\<close> is \<open>value * 10 ^ exp\<close> with an unbounded \<open>value\<close> and a 32-bit \<open>exp\<close>.\<close>

record Decimal =
  d_value :: int
  d_exp :: int


definition rescale :: "Decimal \<Rightarrow> int \<Rightarrow> int" where
  \<comment> \<open>the value of the decimal at a smaller or equal exponent\<close>
  "rescale d e = d_value d * 10 ^ nat (d_exp d - e)"

definition decimal_Cmp :: "Decimal \<Rightarrow> Decimal \<Rightarrow> int" where
  "decimal_Cmp d1 d2 =
     (let e = min (d_exp d1) (d_exp d2); v1 = rescale d1 e; v2 = rescale d2 e
      in if v1 < v2 then - 1 else if v1 = v2 then 0 else 1)"

definition decimal_Equal :: "Decimal \<Rightarrow> Decimal \<Rightarrow> bool" where
  "decimal_Equal d1 d2 = (decimal_Cmp d1 d2 = 0)"

definition decimal_LessThan :: "Decimal \<Rightarrow> Decimal \<Rightarrow> bool" where
  "decimal_LessThan d1 d2 = (decimal_Cmp d1 d2 = - 1)"

definition decimal_GreaterThan :: "Decimal \<Rightarrow> Decimal \<Rightarrow> bool" where
  "decimal_GreaterThan d1 d2 = (decimal_Cmp d1 d2 = 1)"

definition decimal_IsZero :: "Decimal \<Rightarrow> bool" where
  "decimal_IsZero d = (d_value d = 0)"

definition trimTrailingZeros :: "string \<Rightarrow> string" where
  "trimTrailingZeros s = rev (dropWhile (\<lambda>c. c = CHR ''0'') (rev s))"

definition decimal_String :: "Decimal \<Rightarrow> string" where
  "decimal_String d =
     (if d_exp d \<ge> 0 then Itoa (rescale d 0)
      else let str = digits (nat \<bar>d_value d\<bar>);
               k = nat (- d_exp d);
               intPart = (if length str > k then take (length str - k) str else ''0'');
               fractionalPart = trimTrailingZeros
                  (if length str > k then drop (length str - k) str
                   else replicate (k - length str) CHR ''0'' @ str);
               number = intPart @ (if fractionalPart \<noteq> [] then ''.'' @ fractionalPart else '''')
           in if d_value d < 0 then ''-'' @ number else number)"

definition parse_signed :: "string \<Rightarrow> int option" where
  \<comment> \<open>an optional sign and one or more decimal digits, of any length\<close>
  "parse_signed s =
     (let neg = (s \<noteq> [] \<and> hd s = CHR ''-'');
          ds = (if s \<noteq> [] \<and> (hd s = CHR ''-'' \<or> hd s = CHR ''+'') then tl s else s)
      in if ds = [] \<or> \<not> list_all isDigit ds then None
         else Some (if neg then - int (digits_value ds) else int (digits_value ds)))"

definition isE :: "char \<Rightarrow> bool" where
  "isE c = (c = CHR ''E'' \<or> c = CHR ''e'')"

definition in_int32 :: "int \<Rightarrow> bool" where
  "in_int32 e = (- (2 ^ 31) \<le> e \<and> e \<le> 2 ^ 31 - 1)"

definition decimal_NewFromString :: "string \<Rightarrow> Decimal option" where
  "decimal_NewFromString v0 =
     (let hasE = list_ex isE v0;
          eIndex = length (takeWhile (\<lambda>c. \<not> isE c) v0);
          expo = (if hasE then parse_signed (drop (eIndex + 1) v0) else Some 0);
          v = (if hasE then take eIndex v0 else v0);
          pIndex = length (takeWhile (\<lambda>c. c \<noteq> CHR ''.'') v);
          hasP = (CHR ''.'' \<in> set v);
          intString = (if hasP then take pIndex v @ drop (pIndex + 1) v else v)
      in Option.bind expo (\<lambda>e0.
           if \<not> in_int32 e0 then None
           else if length (filter (\<lambda>c. c = CHR ''.'') v) > 1 then None
           else Option.bind (parse_signed intString) (\<lambda>n.
                  let e = (if hasP then e0 - int (length (drop (pIndex + 1) v)) else e0)
                  in if in_int32 e then Some \<lparr>d_value = n, d_exp = e\<rparr> else None)))"

section \<open>Typed value cells\<close>

record FieldKey =
  Name :: string
  Tag :: string

definition FieldKeyTag :: string where
  "FieldKeyTag = ''field''"

definition NewDefaultFieldKey :: "string \<Rightarrow> FieldKey" where
  "NewDefaultFieldKey name = \<lparr>Name = name, Tag = FieldKeyTag\<rparr>"

definition FieldKeyNil :: FieldKey where
  "FieldKeyNil = NewDefaultFieldKey ''nil''"

text \<open>
  The six implementations of the interface \<open>Field\<close>. The arguments are the
  struct's members \<open>ValueField\<close>, \<open>KeyField\<close> and, for \<open>BoolField\<close>, \<open>Set\<close>.
  An argument of type \<open>any\<close> that the methods assert to be a \<open>Field\<close> is a
  \<open>Field option\<close>, \<open>None\<close> for \<open>nil\<close>.
\<close>

datatype Field =
    StringField string FieldKey
  | TimeField Time FieldKey
  | DecimalField Decimal FieldKey
  | IntegerField int FieldKey
  | BoolField bool FieldKey bool
  | EmptyField FieldKey

datatype FieldType = TString | TTime | TDecimal | TInt | TBool | TEmptyFieldPtr

fun Key :: "Field \<Rightarrow> FieldKey" where
  "Key (StringField v k) = k"
| "Key (TimeField v k) = k"
| "Key (DecimalField v k) = k"
| "Key (IntegerField v k) = k"
| "Key (BoolField v k st) = k"
| "Key (EmptyField k) = k"

fun Type :: "Field \<Rightarrow> FieldType" where
  "Type (StringField v k) = TString"
| "Type (TimeField v k) = TTime"
| "Type (DecimalField v k) = TDecimal"
| "Type (IntegerField v k) = TInt"
| "Type (BoolField v k st) = TBool"
| "Type (EmptyField k) = TEmptyFieldPtr"

fun ToString :: "Field \<Rightarrow> string" where
  "ToString (StringField v k) = v"
| "ToString (TimeField v k) = time_Format v"
| "ToString (DecimalField v k) = decimal_String v"
| "ToString (IntegerField v k) = Itoa v"
| "ToString (BoolField v k st) = FormatBool v"
| "ToString (EmptyField k) = []"

text \<open>
  \<open>IntegerField.FromString\<close> and \<open>BoolField.FromString\<close> assign the zero value
  when the parser reports an error and then, in either case, assign what the
  parser returned.
\<close>

fun FromString :: "Field \<Rightarrow> string \<Rightarrow> Field" where
  "FromString (StringField v k) st = StringField st k"
| "FromString (TimeField v k) st =
     (case time_Parse st of None \<Rightarrow> TimeField v k | Some t \<Rightarrow> TimeField t k)"
| "FromString (DecimalField v k) st =
     (case decimal_NewFromString st of None \<Rightarrow> DecimalField v k | Some d \<Rightarrow> DecimalField d k)"
| "FromString (IntegerField v k) st =
     (let (it, err) = Atoi st;
          v1 = (if err \<noteq> None then 0 else v)
      in IntegerField it k)"
| "FromString (BoolField v k st0) st =
     (let (it, err) = ParseBool st;
          v1 = (if err \<noteq> None then False else v)
      in BoolField it k True)"
| "FromString (EmptyField k) st = EmptyField \<lparr>Name = st, Tag = []\<rparr>"

fun IsEmpty :: "Field \<Rightarrow> bool" where
  "IsEmpty (StringField v k) = (v = [])"
| "IsEmpty (TimeField v k) = time_IsZero v"
| "IsEmpty (DecimalField v k) = decimal_IsZero v"
| "IsEmpty (IntegerField v k) = (v = 0)"
| "IsEmpty (BoolField v k st) = st"
| "IsEmpty (EmptyField k) = True"

definition NewBool :: "FieldKey \<Rightarrow> bool \<Rightarrow> Field" where
  "NewBool key b = BoolField b key True"

definition NewBoolEmpty :: "FieldKey \<Rightarrow> Field" where
  "NewBoolEmpty key = BoolField False key False"

subsection \<open>The safe comparator\<close>

datatype safeOp = EQ | LT | GT

fun safeOps :: "safeOp \<Rightarrow> string \<Rightarrow> string \<Rightarrow> bool" where
  "safeOps EQ s1 s2 = (s1 = s2)"
| "safeOps LT s1 s2 = (s1 < s2)"
| "safeOps GT s1 s2 = (s1 > s2)"

definition safeCompare :: "string \<Rightarrow> string \<Rightarrow> safeOp \<Rightarrow> bool" where
  "safeCompare f1 f2 o' = safeOps o' f1 f2"

definition sameCompareTypes :: "Field \<Rightarrow> Field \<Rightarrow> bool" where
  "sameCompareTypes f1 f2 = (Type f1 = Type f2)"

definition checkAndDoSafeCompare :: "Field \<Rightarrow> Field option \<Rightarrow> safeOp \<Rightarrow> bool option" where
  \<comment> \<open>the result is a pointer to a bool, \<open>None\<close> for the nil pointer\<close>
  "checkAndDoSafeCompare f1 f2 o' =
     (case f2 of
        None \<Rightarrow> Some False
      | Some f2f \<Rightarrow>
          if \<not> sameCompareTypes f1 f2f then Some (safeCompare (ToString f1) (ToString f2f) o')
          else None)"

text \<open>
  After \<open>checkAndDoSafeCompare\<close> has returned the nil pointer the argument is a
  cell of the receiver's variant, and the type assertion of the source succeeds;
  the last case of each inner \<open>case\<close> below is never taken.
\<close>

fun LessThan :: "Field \<Rightarrow> Field option \<Rightarrow> bool" where
  "LessThan (StringField v k) in2 =
     (case checkAndDoSafeCompare (StringField v k) in2 LT of
        Some out \<Rightarrow> out
      | None \<Rightarrow> (case in2 of Some (StringField v2 k2) \<Rightarrow> v < v2 | _ \<Rightarrow> False))"
| "LessThan (TimeField v k) in2 =
     (case checkAndDoSafeCompare (TimeField v k) in2 LT of
        Some out \<Rightarrow> out
      | None \<Rightarrow> (case in2 of Some (TimeField v2 k2) \<Rightarrow> time_Before v v2 | _ \<Rightarrow> False))"
| "LessThan (DecimalField v k) in2 =
     (case checkAndDoSafeCompare (DecimalField v k) in2 LT of
        Some out \<Rightarrow> out
      | None \<Rightarrow> (case in2 of Some (DecimalField v2 k2) \<Rightarrow> decimal_LessThan v v2 | _ \<Rightarrow> False))"
| "LessThan (IntegerField v k) in2 =
     (case checkAndDoSafeCompare (IntegerField v k) in2 LT of
        Some out \<Rightarrow> out
      | None \<Rightarrow> (case in2 of Some (IntegerField v2 k2) \<Rightarrow> v < v2 | _ \<Rightarrow> False))"
| "LessThan (BoolField v k st) in2 = False"
| "LessThan (EmptyField k) in2 = False"

fun GreaterThan :: "Field \<Rightarrow> Field option \<Rightarrow> bool" where
  "GreaterThan (StringField v k) in2 =
     (case checkAndDoSafeCompare (StringField v k) in2 GT of
        Some out \<Rightarrow> out
      | None \<Rightarrow> (case in2 of Some (StringField v2 k2) \<Rightarrow> v > v2 | _ \<Rightarrow> False))"
| "GreaterThan (TimeField v k) in2 =
     (case checkAndDoSafeCompare (TimeField v k) in2 GT of
        Some out \<Rightarrow> out
      | None \<Rightarrow> (case in2 of Some (TimeField v2 k2) \<Rightarrow> time_After v v2 | _ \<Rightarrow> False))"
| "GreaterThan (DecimalField v k) in2 =
     (case checkAndDoSafeCompare (DecimalField v k) in2 GT of
        Some out \<Rightarrow> out
      | None \<Rightarrow> (case in2 of Some (DecimalField v2 k2) \<Rightarrow> decimal_GreaterThan v v2 | _ \<Rightarrow> False))"
| "GreaterThan (IntegerField v k) in2 =
     (case checkAndDoSafeCompare (IntegerField v k) in2 GT of
        Some out \<Rightarrow> out
      | None \<Rightarrow> (case in2 of Some (IntegerField v2 k2) \<Rightarrow> v > v2 | _ \<Rightarrow> False))"
| "GreaterThan (BoolField v k st) in2 = False"
| "GreaterThan (EmptyField k) in2 = False"

fun Equal :: "Field \<Rightarrow> Field option \<Rightarrow> bool" where
  "Equal (StringField v k) in2 =
     (case checkAndDoSafeCompare (StringField v k) in2 EQ of
        Some out \<Rightarrow> out
      | None \<Rightarrow> (case in2 of Some (StringField v2 k2) \<Rightarrow> v = v2 | _ \<Rightarrow> False))"
| "Equal (TimeField v k) in2 =
     (case checkAndDoSafeCompare (TimeField v k) in2 EQ of
        Some out \<Rightarrow> out
      | None \<Rightarrow> (case in2 of Some (TimeField v2 k2) \<Rightarrow> time_Equal v v2 | _ \<Rightarrow> False))"
| "Equal (DecimalField v k) in2 =
     (case checkAndDoSafeCompare (DecimalField v k) in2 EQ of
        Some out \<Rightarrow> out
      | None \<Rightarrow> (case in2 of Some (DecimalField v2 k2) \<Rightarrow> decimal_Equal v v2 | _ \<Rightarrow> False))"
| "Equal (IntegerField v k) in2 =
     (case checkAndDoSafeCompare (IntegerField v k) in2 EQ of
        Some out \<Rightarrow> out
      | None \<Rightarrow> (case in2 of Some (IntegerField v2 k2) \<Rightarrow> v = v2 | _ \<Rightarrow> False))"
| "Equal (BoolField v k st) in2 =
     (case checkAndDoSafeCompare (BoolField v k st) in2 EQ of
        Some out \<Rightarrow> out
      | None \<Rightarrow> (case in2 of Some (BoolField v2 k2 st2) \<Rightarrow> v = v2 | _ \<Rightarrow> False))"
| "Equal (EmptyField k) in2 =
     (case in2 of
        None \<Rightarrow> False
      | Some f2 \<Rightarrow>
          if \<not> sameCompareTypes (EmptyField k) f2 then False
          else (case f2 of EmptyField k2 \<Rightarrow> k = k2 | _ \<Rightarrow> False))"

subsection \<open>Assignment\<close>

datatype panic = TypeAssertionFailed

text \<open>
  \<open>SetValue\<close> asserts that its argument is a \<open>Field\<close>, and the assertion panics
  on \<open>nil\<close>. The Empty variant ignores the argument. As in the comparisons, the
  last case of each inner \<open>case\<close> is never taken.
\<close>

fun SetValue :: "Field \<Rightarrow> Field option \<Rightarrow> panic + Field" where
  "SetValue (EmptyField k) in2 = Inr (EmptyField k)"
| "SetValue s None = Inl TypeAssertionFailed"
| "SetValue (StringField v k) (Some f) =
     (case checkAndDoSafeCompare (StringField v k) (Some f) EQ of
        Some out \<Rightarrow> Inr (StringField (ToString f) k)
      | None \<Rightarrow>
          (case f of StringField v2 k2 \<Rightarrow> Inr (StringField v2 k) | _ \<Rightarrow> Inl TypeAssertionFailed))"
| "SetValue (TimeField v k) (Some f) =
     (case checkAndDoSafeCompare (TimeField v k) (Some f) EQ of
        Some out \<Rightarrow> Inr (FromString (TimeField v k) (ToString f))
      | None \<Rightarrow>
          (case f of TimeField v2 k2 \<Rightarrow> Inr (TimeField v2 k) | _ \<Rightarrow> Inl TypeAssertionFailed))"
| "SetValue (DecimalField v k) (Some f) =
     (case checkAndDoSafeCompare (DecimalField v k) (Some f) EQ of
        Some out \<Rightarrow> Inr (FromString (DecimalField v k) (ToString f))
      | None \<Rightarrow>
          (case f of DecimalField v2 k2 \<Rightarrow> Inr (DecimalField v2 k) | _ \<Rightarrow> Inl TypeAssertionFailed))"
| "SetValue (IntegerField v k) (Some f) =
     (case checkAndDoSafeCompare (IntegerField v k) (Some f) EQ of
        Some out \<Rightarrow> Inr (FromString (IntegerField v k) (ToString f))
      | None \<Rightarrow>
          (case f of IntegerField v2 k2 \<Rightarrow> Inr (IntegerField v2 k) | _ \<Rightarrow> Inl TypeAssertionFailed))"
| "SetValue (BoolField v k st) (Some f) =
     (case checkAndDoSafeCompare (BoolField v k st) (Some f) EQ of
        Some out \<Rightarrow> Inr (FromString (BoolField v k st) (ToString f))
      | None \<Rightarrow>
          (case f of BoolField v2 k2 st2 \<Rightarrow> Inr (BoolField v2 k True)
           | _ \<Rightarrow> Inl TypeAssertionFailed))"

section \<open>Default wrapper\<close>

record defaulter =
  ExplicitlySetField :: bool
  Value :: Field

definition NewDefault :: "bool \<Rightarrow> Field \<Rightarrow> defaulter" where
  "NewDefault explicitly f = \<lparr>ExplicitlySetField = explicitly, Value = f\<rparr>"

definition ExplicitlySet :: "defaulter \<Rightarrow> bool" where
  "ExplicitlySet d = ExplicitlySetField d"

definition MatchesDefault :: "defaulter \<Rightarrow> Field option \<Rightarrow> bool" where
  "MatchesDefault d f = Equal (Value d) f"

definition DefaultField :: "defaulter \<Rightarrow> Field" where
  "DefaultField d = Value d"

text \<open>The wrapped field is an interface value and may be \<open>nil\<close>.\<close>

record FieldWDefaultImpl =
  fwd_Field :: "Field option"
  fwd_Default :: defaulter

definition NewFieldWDefault :: "Field option \<Rightarrow> defaulter \<Rightarrow> FieldWDefaultImpl" where
  "NewFieldWDefault f d = \<lparr>fwd_Field = f, fwd_Default = d\<rparr>"

definition IsDefault :: "FieldWDefaultImpl \<Rightarrow> bool" where
  "IsDefault s = (MatchesDefault (fwd_Default s) (fwd_Field s) \<and> \<not> ExplicitlySet (fwd_Default s))"

section \<open>Conditional gate\<close>

type_synonym 'a Enforceable = "'a \<Rightarrow> bool"

type_synonym 'a Question = "unit \<Rightarrow> 'a Enforceable"

record 'a Prerequisite =
  IsCandidate :: "'a Enforceable"
  Gauntlet :: "'a Question list"

record 'a conditional =
  prereqs :: "'a Prerequisite list"

definition Conditions :: "'a Prerequisite list \<Rightarrow> 'a conditional" where
  "Conditions inp = \<lparr>prereqs = inp\<rparr>"

definition Prerequisites :: "'a conditional \<Rightarrow> 'a Prerequisite list" where
  "Prerequisites c = prereqs c"

text \<open>
  The two nested loops of \<open>Meets\<close>. The inner loop returns from \<open>Meets\<close> at the
  first guard that fails: \<open>runGauntlet\<close> is false then, and the outer loop stops.
\<close>

fun runGauntlet :: "'a Question list \<Rightarrow> 'a \<Rightarrow> bool" where
  "runGauntlet [] toSet = True"
| "runGauntlet (w # ws) toSet = (if \<not> w () toSet then False else runGauntlet ws toSet)"

fun MeetsLoop :: "'a Prerequisite list \<Rightarrow> 'a \<Rightarrow> bool" where
  "MeetsLoop [] toSet = True"
| "MeetsLoop (v # vs) toSet =
     (if IsCandidate v toSet
      then (if runGauntlet (Gauntlet v) toSet then MeetsLoop vs toSet else False)
      else MeetsLoop vs toSet)"

definition Meets :: "'a conditional \<Rightarrow> 'a \<Rightarrow> bool" where
  "Meets c toSet = MeetsLoop (prereqs c) toSet"




section \<open>State machines on a ring\<close>

text \<open>
  A \<open>StateValue\<close> is a value of type \<open>any\<close>: \<open>None\<close> is \<open>nil\<close>. The test data
  handed to the matchers and gates has the type \<open>'d\<close>.
\<close>

type_synonym StateId = string

type_synonym 'v StateValue = "'v option"

record 'd Transition =
  NextState_T :: StateId
  SimpleMatcher :: "'d \<Rightarrow> bool"

record ('v, 'd) State =
  Id_S :: StateId
  Matches :: "'d Transition list"
  StateValue_S :: "'v StateValue"
  Start_S :: bool
  Terminal :: bool

record 'd ConditionalTransition =
  NextState_C :: StateId
  Conditional_C :: "'d conditional"

record ('v, 'd) ConditionalState =
  Id_C :: StateId
  Outcomes :: "'d ConditionalTransition list"
  StateValue_C :: "'v StateValue"
  Start_C :: bool

datatype error =
    IdDoesNotExist
  | AddressDoesNotExist
  | ErrorRetrievingState
  | NoValidTransitions
  | NextIdIsEmpty
  | SameStateNoUpdate
  | NextIdDoesNotExist
  | ValueIsNil

text \<open>
  The ring of \<open>container/ring\<close> is the list of the values of its cells, and a
  \<open>RingAddress\<close> is the index of a cell, \<open>None\<close> for the nil pointer. The machine's
  own pointer into the ring is \<open>ring_pos\<close>. A cell that was never written holds
  \<open>nil\<close>.
\<close>

datatype ('v, 'd) RingValue =
    RNil
  | RState "('v, 'd) State"
  | RCond "('v, 'd) ConditionalState"

type_synonym RingAddress = "nat option"

record ('v, 'd) StateMachine =
  Ring :: "('v, 'd) RingValue list"
  ring_pos :: nat
  Start :: StateId
  IdRingAddressCache :: "StateId \<rightharpoonup> RingAddress"
  ValueCache :: "StateId \<rightharpoonup> 'v StateValue"

definition ring_Next :: "('v, 'd) StateMachine \<Rightarrow> nat" where
  "ring_Next sm = (if Suc (ring_pos sm) < length (Ring sm) then Suc (ring_pos sm) else 0)"

definition ring_Value :: "('v, 'd) StateMachine \<Rightarrow> nat \<Rightarrow> ('v, 'd) RingValue" where
  "ring_Value sm a = (if a < length (Ring sm) then Ring sm ! a else RNil)"

text \<open>
  Go visits the keys of a map in an order it does not specify. The loop of
  \<open>lookupValueCacheId\<close> takes the order of the visit as the list \<open>keys\<close>.
\<close>

fun lookupValueCacheId ::
  "(StateId \<rightharpoonup> 'v StateValue) \<Rightarrow> StateId list \<Rightarrow> 'v StateValue \<Rightarrow>
   ('v StateValue \<Rightarrow> 'v StateValue \<Rightarrow> bool) \<Rightarrow> StateId" where
  "lookupValueCacheId cache [] in0 equals = []"
| "lookupValueCacheId cache (k # ks) in0 equals =
     (case cache k of
        Some v \<Rightarrow> if equals v in0 then k else lookupValueCacheId cache ks in0 equals
      | None \<Rightarrow> lookupValueCacheId cache ks in0 equals)"

definition visits :: "('k \<rightharpoonup> 'a) \<Rightarrow> 'k list \<Rightarrow> bool" where
  \<comment> \<open>\<open>keys\<close> is an order in which \<open>range\<close> can visit the map\<close>
  "visits cache keys = (distinct keys \<and> set keys = dom cache)"

fun EvaluateTransitionLoop :: "'d Transition list \<Rightarrow> 'd \<Rightarrow> error + StateId" where
  "EvaluateTransitionLoop [] dataToTest = Inl NoValidTransitions"
| "EvaluateTransitionLoop (v # vs) dataToTest =
     (if SimpleMatcher v dataToTest then Inr (NextState_T v)
      else EvaluateTransitionLoop vs dataToTest)"

definition EvaluateTransition :: "('v, 'd) State \<Rightarrow> 'd \<Rightarrow> error + StateId" where
  "EvaluateTransition s dataToTest =
     (if Terminal s then Inr (Id_S s) else EvaluateTransitionLoop (Matches s) dataToTest)"

definition ProcessInMachine ::
  "('v, 'd) StateMachine \<Rightarrow> StateId list \<Rightarrow> 'v StateValue \<Rightarrow> 'd \<Rightarrow>
   ('v StateValue \<Rightarrow> 'v StateValue \<Rightarrow> bool) \<Rightarrow> error + 'v StateValue" where
  "ProcessInMachine sm keys in0 testData equals =
     (let stateId = lookupValueCacheId (ValueCache sm) keys in0 equals
      in case IdRingAddressCache sm stateId of
           None \<Rightarrow> Inl IdDoesNotExist
         | Some None \<Rightarrow> Inl AddressDoesNotExist
         | Some (Some currentAddr) \<Rightarrow>
             (case ring_Value sm currentAddr of
                RState currentState \<Rightarrow>
                  (case EvaluateTransition currentState testData of
                     Inl err \<Rightarrow> Inl err
                   | Inr nextId \<Rightarrow>
                       if nextId = [] then Inl NextIdIsEmpty
                       else if nextId = stateId then Inl SameStateNoUpdate
                       else (case ValueCache sm nextId of
                               None \<Rightarrow> Inl NextIdDoesNotExist
                             | Some None \<Rightarrow> Inl ValueIsNil
                             | Some (Some v) \<Rightarrow> Inr (Some v)))
              | _ \<Rightarrow> Inl ErrorRetrievingState))"

fun PopulateRing :: "('v, 'd) StateMachine \<Rightarrow> ('v, 'd) State list \<Rightarrow> ('v, 'd) StateMachine" where
  "PopulateRing sm [] = sm"
| "PopulateRing sm (v # vs) =
     PopulateRing
       (sm\<lparr>Ring := (Ring sm)[ring_pos sm := RState v],
           IdRingAddressCache := (IdRingAddressCache sm)(Id_S v \<mapsto> Some (ring_pos sm)),
           ValueCache := (ValueCache sm)(Id_S v \<mapsto> StateValue_S v),
           ring_pos := ring_Next sm\<rparr>)
       vs"

definition NewStateMachine :: "('v, 'd) State list \<Rightarrow> ('v, 'd) StateMachine" where
  \<comment> \<open>the maps of the empty machine are nil maps; reading a nil map finds nothing\<close>
  "NewStateMachine states =
     (if length states = 0
      then \<lparr>Ring = [], ring_pos = 0, Start = [], IdRingAddressCache = Map.empty,
            ValueCache = Map.empty\<rparr>
      else PopulateRing
             \<lparr>Ring = replicate (length states) RNil, ring_pos = 0, Start = Id_S (hd states),
              IdRingAddressCache = Map.empty, ValueCache = Map.empty\<rparr>
             states)"

definition BasicEquals :: "'v StateValue \<Rightarrow> 'v StateValue \<Rightarrow> bool" where
  "BasicEquals s1 s2 = (s1 = s2)"

subsection \<open>The conditional machine\<close>






section \<open>Example values\<close>

text \<open>
  A gate with one prerequisite: the value 1 is a candidate, and its only guard
  rejects.
\<close>

definition example_gate :: "int conditional" where
  "example_gate = Conditions [\<lparr>IsCandidate = (\<lambda>f. f = 1), Gauntlet = [\<lambda>_. \<lambda>f. False]\<rparr>]"


text \<open>The ring \<open>A \<rightarrow> B \<rightarrow> C\<close> on the input \<open>go\<close>, with \<open>C\<close> terminal.\<close>

definition state_A :: "(string, string) State" where
  "state_A =
     \<lparr>Id_S = ''A'', Matches = [\<lparr>NextState_T = ''B'', SimpleMatcher = (\<lambda>d. d = ''go'')\<rparr>],
      StateValue_S = Some ''a'', Start_S = True, Terminal = False\<rparr>"

definition state_B :: "(string, string) State" where
  "state_B =
     \<lparr>Id_S = ''B'', Matches = [\<lparr>NextState_T = ''C'', SimpleMatcher = (\<lambda>d. d = ''go'')\<rparr>],
      StateValue_S = Some ''b'', Start_S = False, Terminal = False\<rparr>"

definition state_C :: "(string, string) State" where
  "state_C =
     \<lparr>Id_S = ''C'', Matches = [], StateValue_S = Some ''c'', Start_S = False, Terminal = True\<rparr>"



text \<open>The time 2024-03-05T06:07:08.5+01:00, the decimal -12.340 and a key.\<close>

definition example_time :: Time where
  "example_time =
     \<lparr>t_year = 2024, t_month = 3, t_day = 5, t_hour = 6, t_min = 7, t_sec = 8,
      t_nsec = 500000000, t_offset = 3600\<rparr>"

definition example_decimal :: Decimal where
  "example_decimal = \<lparr>d_value = - 12340, d_exp = - 3\<rparr>"

definition example_key :: FieldKey where
  "example_key = NewDefaultFieldKey ''amount''"

section \<open>Typed value cells: claims\<close>

subsection \<open>Emptiness and the Empty variant\<close>

text \<open>
  C10. \<open>SetValue\<close> on a cell of the Empty variant returns the cell as it was,
  for every argument (\<open>nil\<close> included): the key is the same, and \<open>IsEmpty\<close> is
  true of the cell.
\<close>

theorem EmptyField_SetValue_noop:
  "SetValue (EmptyField k) v = Inr (EmptyField k) \<and> Key (EmptyField k) = k \<and>
   IsEmpty (EmptyField k)"
  by simp

text \<open>
  C2. \<open>BoolField.IsEmpty\<close> returns the flag \<open>Set\<close> itself, not its negation: the
  cell of \<open>NewBoolEmpty\<close>, never assigned, is not empty, and the cell of
  \<open>NewBool\<close>, assigned at construction, is.
\<close>

theorem BoolField_IsEmpty_returns_Set:
  "IsEmpty (BoolField v k st) = st \<and> \<not> IsEmpty (NewBoolEmpty key) \<and> IsEmpty (NewBool key b)"
  by (simp add: NewBoolEmpty_def NewBool_def)

subsection \<open>Comparison across variants\<close>

text \<open>A comparison with \<open>nil\<close> is false for every cell.\<close>

lemma compare_with_nil:
  "\<not> Equal f None \<and> \<not> LessThan f None \<and> \<not> GreaterThan f None"
  by (cases f) (simp_all add: checkAndDoSafeCompare_def)

text \<open>
  C4, as the source has it. For two cells of different variants, a receiver
  of the Text, Timestamp, Decimal or Integer variant compares the two
  \<open>ToString\<close> forms as byte strings in all three comparisons. A Boolean
  receiver does so in \<open>Equal\<close> only, and its \<open>LessThan\<close> and \<open>GreaterThan\<close> are
  false. All three comparisons of an Empty receiver are false. Every
  comparison returns a boolean.
\<close>

theorem cross_variant_compare:
  assumes "Type f1 \<noteq> Type f2"
  shows "LessThan f1 (Some f2) =
           (if Type f1 = TBool \<or> Type f1 = TEmptyFieldPtr then False
            else ToString f1 < ToString f2) \<and>
         GreaterThan f1 (Some f2) =
           (if Type f1 = TBool \<or> Type f1 = TEmptyFieldPtr then False
            else ToString f1 > ToString f2) \<and>
         Equal f1 (Some f2) =
           (if Type f1 = TEmptyFieldPtr then False else ToString f1 = ToString f2)"
  using assms
  by (cases f1) (simp_all add: checkAndDoSafeCompare_def sameCompareTypes_def safeCompare_def)

theorem cross_variant_compare_witness:
  "LessThan (IntegerField 10 FieldKeyNil) (Some (StringField ''9'' FieldKeyNil)) \<and>
   \<not> GreaterThan (IntegerField 10 FieldKeyNil) (Some (StringField ''9'' FieldKeyNil)) \<and>
   Equal (BoolField True FieldKeyNil True) (Some (StringField ''true'' FieldKeyNil)) \<and>
   \<not> Equal (EmptyField FieldKeyNil) (Some (StringField [] FieldKeyNil))"
proof -
  have t1: "Type (IntegerField 10 FieldKeyNil) \<noteq> Type (StringField ''9'' FieldKeyNil)" by simp
  have t2: "Type (BoolField True FieldKeyNil True) \<noteq> Type (StringField ''true'' FieldKeyNil)"
    by simp
  have t3: "Type (EmptyField FieldKeyNil) \<noteq> Type (StringField [] FieldKeyNil)" by simp
  have s: "ToString (IntegerField 10 FieldKeyNil) = ''10''"
    by (simp add: Itoa_def digits.simps digit_char_def)
  from cross_variant_compare [OF t1] s
  have "LessThan (IntegerField 10 FieldKeyNil) (Some (StringField ''9'' FieldKeyNil)) \<and>
        \<not> GreaterThan (IntegerField 10 FieldKeyNil) (Some (StringField ''9'' FieldKeyNil))"
    by simp
  moreover from cross_variant_compare [OF t2]
  have "Equal (BoolField True FieldKeyNil True) (Some (StringField ''true'' FieldKeyNil))"
    by (simp add: FormatBool_def)
  moreover from cross_variant_compare [OF t3]
  have "\<not> Equal (EmptyField FieldKeyNil) (Some (StringField [] FieldKeyNil))"
    by simp
  ultimately show ?thesis by blast
qed

text \<open>
  The claim C4 as the specification states it fails for a Boolean and for an
  Empty receiver: \<open>true\<close> is less than \<open>zzz\<close> as text, and the empty text equals
  the empty text, yet the comparisons are false.
\<close>

theorem cross_variant_compare_counterexample:
  "Type (BoolField True FieldKeyNil True) \<noteq> Type (StringField ''zzz'' FieldKeyNil) \<and>
   LessThan (BoolField True FieldKeyNil True) (Some (StringField ''zzz'' FieldKeyNil)) \<noteq>
     (ToString (BoolField True FieldKeyNil True) < ToString (StringField ''zzz'' FieldKeyNil)) \<and>
   Equal (EmptyField FieldKeyNil) (Some (StringField [] FieldKeyNil)) \<noteq>
     (ToString (EmptyField FieldKeyNil) = ToString (StringField [] FieldKeyNil))"
  by (simp add: FormatBool_def sameCompareTypes_def)

subsection \<open>FromString on text that does not parse\<close>




text \<open>
  For a numeral outside the 64-bit \<open>int\<close>, \<open>Atoi\<close> returns the nearest bound
  together with its error, and the Integer cell is left holding that bound.
\<close>

lemma IntegerField_FromString_out_of_range:
  "Atoi ''99999999999999999999'' = (maxInt, Some ErrRange) \<and>
   FromString (IntegerField 7 example_key) ''99999999999999999999'' =
     IntegerField maxInt example_key"
proof -
  have "Atoi ''99999999999999999999'' = (maxInt, Some ErrRange)"
    by (simp add: Atoi_def digits_value_def digit_val_def isDigit_def maxInt_def less_eq_char_def)
  then show ?thesis by simp
qed

section \<open>Round trips of the library functions\<close>

subsection \<open>Decimal digits\<close>

lemma digit_char_props: "d < 10 \<Longrightarrow> isDigit (digit_char d) \<and> digit_val (digit_char d) = d"
proof -
  assume "d < 10"
  then have "d = 0 \<or> d = 1 \<or> d = 2 \<or> d = 3 \<or> d = 4 \<or> d = 5 \<or> d = 6 \<or> d = 7 \<or> d = 8 \<or> d = 9"
    by arith
  then show ?thesis
    by (elim disjE) (simp_all add: isDigit_def digit_char_def digit_val_def less_eq_char_def)
qed

lemma isDigit_not_mark:
  "isDigit c \<Longrightarrow> c \<noteq> CHR ''-'' \<and> c \<noteq> CHR ''+'' \<and> c \<noteq> CHR ''.'' \<and> \<not> isE c"
  by (auto simp: isDigit_def isE_def less_eq_char_def)

lemma digits_isDigit: "list_all isDigit (digits n)"
proof (induction n rule: digits.induct)
  case (1 n)
  show ?case
  proof (cases "n < 10")
    case True
    then show ?thesis by (simp add: digits.simps [of n] digit_char_props)
  next
    case False
    with 1 show ?thesis by (simp add: digits.simps [of n] digit_char_props)
  qed
qed

lemma digits_not_Nil: "digits n \<noteq> []"
  by (simp add: digits.simps [of n])

lemma digits_value_acc:
  "foldl (\<lambda>n c. n * 10 + digit_val c) a s = a * 10 ^ length s + digits_value s"
proof (induction s arbitrary: a)
  case Nil
  then show ?case by (simp add: digits_value_def)
next
  case (Cons c s)
  have "foldl (\<lambda>n c. n * 10 + digit_val c) a (c # s) =
        (a * 10 + digit_val c) * 10 ^ length s + digits_value s"
    by (simp add: Cons.IH [of "a * 10 + digit_val c"])
  moreover have "digits_value (c # s) = digit_val c * 10 ^ length s + digits_value s"
    using Cons.IH [of "digit_val c"] by (simp add: digits_value_def)
  ultimately show ?case by (simp add: algebra_simps)
qed

lemma digits_value_append:
  "digits_value (xs @ ys) = digits_value xs * 10 ^ length ys + digits_value ys"
  by (simp add: digits_value_def digits_value_acc [of "foldl (\<lambda>n c. n * 10 + digit_val c) 0 xs" ys])

lemma digits_value_single: "digits_value [c] = digit_val c"
  by (simp add: digits_value_def)

lemma digits_value_digits: "digits_value (digits n) = n"
proof (induction n rule: digits.induct)
  case (1 n)
  show ?case
  proof (cases "n < 10")
    case True
    then show ?thesis
      by (simp add: digits.simps [of n] digits_value_single digit_char_props)
  next
    case False
    with 1 show ?thesis
      by (simp add: digits.simps [of n] digits_value_append digits_value_single digit_char_props)
  qed
qed

lemma hd_digits: "isDigit (hd (digits n))"
  using digits_isDigit [of n] digits_not_Nil [of n] by (cases "digits n") simp_all

lemma parse_signed_digits: "parse_signed (digits n) = Some (int n)"
  using hd_digits [of n] isDigit_not_mark [of "hd (digits n)"]
  by (simp add: parse_signed_def digits_not_Nil digits_isDigit digits_value_digits)

lemma parse_signed_minus_digits: "parse_signed (CHR ''-'' # digits n) = Some (- int n)"
  by (simp add: parse_signed_def digits_not_Nil digits_isDigit digits_value_digits)

subsection \<open>strconv\<close>

lemma Atoi_Itoa: "minInt \<le> i \<Longrightarrow> i \<le> maxInt \<Longrightarrow> Atoi (Itoa i) = (i, None)"
proof (cases "i < 0")
  case True
  assume "minInt \<le> i"
  with True show ?thesis
    by (simp add: Atoi_def Itoa_def digits_not_Nil digits_isDigit digits_value_digits minInt_def)
next
  case False
  assume "i \<le> maxInt"
  with False hd_digits [of "nat i"] isDigit_not_mark [of "hd (digits (nat i))"] show ?thesis
    by (simp add: Atoi_def Itoa_def digits_not_Nil digits_isDigit digits_value_digits maxInt_def)
qed

lemma ParseBool_FormatBool: "ParseBool (FormatBool b) = (b, None)"
  by (simp add: ParseBool_def FormatBool_def)

subsection \<open>time.Time\<close>

lemma replicate_two_three: "replicate 2 x = [x, x]" "replicate 3 x = [x, x, x]"
  by (simp_all add: numeral_2_eq_2 numeral_3_eq_3)

lemma digits_two: "n < 100 \<Longrightarrow>
  replicate (2 - length (digits n)) CHR ''0'' @ digits n = [digit_char (n div 10), digit_char (n mod 10)]"
proof (cases "n < 10")
  case True
  then show ?thesis by (simp add: digits.simps [of n] digit_char_def)
next
  case False
  assume "n < 100"
  with False have "n div 10 < 10" by simp
  with False show ?thesis
    by (simp add: digits.simps [of n] digits.simps [of "n div 10"])
qed

lemma appendInt_two:
  "0 \<le> x \<Longrightarrow> x < 100 \<Longrightarrow> appendInt x 2 = [digit_char (nat x div 10), digit_char (nat x mod 10)]"
  using digits_two [of "nat x"] by (simp add: appendInt_def Let_def)

lemma digits_three: "10 \<le> n \<Longrightarrow> n < 1000 \<Longrightarrow>
  replicate (3 - length (digits n)) CHR ''0'' @ digits n =
    [digit_char (n div 100), digit_char (n div 10 mod 10), digit_char (n mod 10)]"
proof -
  assume n: "10 \<le> n" "n < 1000"
  then have d: "digits n = digits (n div 10) @ [digit_char (n mod 10)]"
    by (simp add: digits.simps [of n])
  from n have "n div 10 < 100" by simp
  from digits_two [OF this] have
    "replicate (2 - length (digits (n div 10))) CHR ''0'' @ digits (n div 10) =
      [digit_char (n div 10 div 10), digit_char (n div 10 mod 10)]" .
  moreover have "n div 10 div 10 = n div 100" by (simp add: div_mult2_eq [symmetric])
  moreover have "3 - length (digits n) = 2 - length (digits (n div 10))" using d by simp
  ultimately show ?thesis using d by simp
qed

lemma digits_four: "n < 10000 \<Longrightarrow>
  replicate (4 - length (digits n)) CHR ''0'' @ digits n =
    [digit_char (n div 1000), digit_char (n div 100 mod 10), digit_char (n div 10 mod 10),
     digit_char (n mod 10)]"
proof (cases "n < 10")
  case True
  then show ?thesis by (simp add: digits.simps [of n] digit_char_def replicate_two_three)
next
  case False
  assume n: "n < 10000"
  from False have d: "digits n = digits (n div 10) @ [digit_char (n mod 10)]"
    by (simp add: digits.simps [of n])
  show ?thesis
  proof (cases "n < 100")
    case True
    then have "n div 10 < 10" by simp
    then have "digits (n div 10) = [digit_char (n div 10)]"
      by (simp add: digits.simps [of "n div 10"])
    with d True show ?thesis by (simp add: digit_char_def replicate_two_three)
  next
    case False
    with n have "10 \<le> n div 10" "n div 10 < 1000" by simp_all
    from digits_three [OF this] have
      "replicate (3 - length (digits (n div 10))) CHR ''0'' @ digits (n div 10) =
        [digit_char (n div 10 div 100), digit_char (n div 10 div 10 mod 10),
         digit_char (n div 10 mod 10)]" .
    moreover have "n div 10 div 100 = n div 1000" "n div 10 div 10 = n div 100"
      by (simp_all add: div_mult2_eq [symmetric])
    moreover have "4 - length (digits n) = 3 - length (digits (n div 10))" using d by simp
    ultimately show ?thesis using d by simp
  qed
qed

lemma appendInt_four:
  "0 \<le> x \<Longrightarrow> x \<le> 9999 \<Longrightarrow>
   appendInt x 4 = [digit_char (nat x div 1000), digit_char (nat x div 100 mod 10),
                    digit_char (nat x div 10 mod 10), digit_char (nat x mod 10)]"
  using digits_four [of "nat x"] by (simp add: appendInt_def Let_def)

lemma digits_value_zeros: "digits_value (replicate k CHR ''0'' @ s) = digits_value s"
proof -
  have "digits_value (replicate k CHR ''0'') = 0"
    by (induction k) (simp_all add: digits_value_def digit_val_def)
  then show ?thesis by (simp add: digits_value_append)
qed

lemma parseUint_appendInt:
  "0 \<le> x \<Longrightarrow> parseUint (appendInt x w) lo hi = (if x < lo \<or> hi < x then None else Some x)"
proof -
  assume x: "0 \<le> x"
  have z: "isDigit CHR ''0''" by (simp add: isDigit_def)
  have "list_all isDigit (replicate (w - length (digits (nat x))) CHR ''0'' @ digits (nat x))"
    using z digits_isDigit [of "nat x"] by (auto simp: list_all_iff)
  moreover have "digits_value (replicate (w - length (digits (nat x))) CHR ''0'' @ digits (nat x))
      = nat x"
    by (simp add: digits_value_zeros digits_value_digits)
  ultimately show ?thesis using x
    by (simp add: parseUint_def appendInt_def Let_def)
qed

lemma format_zone_parse:
  assumes "off mod 60 = 0" and "\<bar>off\<bar> < 86400"
  shows "parse_frac (format_zone off) = (0, format_zone off) \<and>
         parse_zone (format_zone off) = Some off"
proof (cases "off = 0")
  case True
  then show ?thesis by (simp add: format_zone_def parse_frac_def parse_zone_def)
next
  case False
  define z where "z = (if off < 0 then - ((- off) div 60) else off div 60)"
  define h where "h = \<bar>z\<bar> div 60"
  define m where "m = \<bar>z\<bar> mod 60"
  define sign where "sign = (if z < 0 then CHR ''-'' else CHR ''+'')"
  have m60: "(- off) mod 60 = 0" using assms(1) by presburger
  have az: "\<bar>z\<bar> * 60 = \<bar>off\<bar>" using assms(1) m60 by (auto simp: z_def)
  have zneg: "z < 0 \<longleftrightarrow> off < 0" using False assms(1) m60 by (auto simp: z_def)
  have hr: "0 \<le> h" "h \<le> 23" using az assms(2) by (auto simp: h_def)
  have mr: "0 \<le> m" "m \<le> 59" by (auto simp: m_def)
  have hm: "(h * 60 + m) * 60 = \<bar>off\<bar>" using az by (simp add: h_def m_def)
  have H: "appendInt h 2 = [digit_char (nat h div 10), digit_char (nat h mod 10)]"
    using hr by (intro appendInt_two) auto
  have M: "appendInt m 2 = [digit_char (nat m div 10), digit_char (nat m mod 10)]"
    using mr by (intro appendInt_two) auto
  have fz: "format_zone off =
      [sign, digit_char (nat h div 10), digit_char (nat h mod 10), CHR '':'',
       digit_char (nat m div 10), digit_char (nat m mod 10)]"
    using False H M
    by (simp add: format_zone_def Let_def z_def [symmetric] h_def [symmetric] m_def [symmetric]
        sign_def)
  have sg: "sign \<noteq> CHR ''.''" "sign = CHR ''-'' \<or> sign = CHR ''+''" "sign = CHR ''-'' \<longleftrightarrow> z < 0"
    by (auto simp: sign_def)
  have ph: "parseUint [digit_char (nat h div 10), digit_char (nat h mod 10)] 0 23 = Some h"
    using parseUint_appendInt [of h 2 0 23] hr H by simp
  have pm: "parseUint [digit_char (nat m div 10), digit_char (nat m mod 10)] 0 59 = Some m"
    using parseUint_appendInt [of m 2 0 59] mr M by simp
  have frac: "parse_frac (format_zone off) = (0, format_zone off)"
    using sg(1) by (simp add: fz parse_frac_def)
  have zone: "parse_zone (format_zone off) = Some off"
    using sg ph pm hm zneg by (auto simp: fz parse_zone_def slice_def)
  from frac zone show ?thesis by simp
qed

lemma time_Parse_Format:
  assumes v: "valid_Time t" and y: "0 \<le> t_year t" "t_year t \<le> 9999"
    and o: "t_offset t mod 60 = 0" "\<bar>t_offset t\<bar> < 86400"
  shows "time_Parse (time_Format t) = Some (t\<lparr>t_nsec := 0\<rparr>)"
proof -
  let ?d = "\<lambda>x. digit_char (nat x div 10)" and ?e = "\<lambda>x. digit_char (nat x mod 10)"
  let ?Z = "format_zone (t_offset t)"
  from v have r: "1 \<le> t_month t" "t_month t \<le> 12" "1 \<le> t_day t"
    "t_day t \<le> daysIn (t_month t) (t_year t)" "0 \<le> t_hour t" "t_hour t \<le> 23"
    "0 \<le> t_min t" "t_min t \<le> 59" "0 \<le> t_sec t" "t_sec t \<le> 59"
    by (simp_all add: valid_Time_def)
  have d31: "daysIn (t_month t) (t_year t) \<le> 31" by (simp add: daysIn_def)
  have Y: "appendInt (t_year t) 4 =
      [digit_char (nat (t_year t) div 1000), digit_char (nat (t_year t) div 100 mod 10),
       digit_char (nat (t_year t) div 10 mod 10), digit_char (nat (t_year t) mod 10)]"
    using y by (rule appendInt_four)
  have Mo: "appendInt (t_month t) 2 = [?d (t_month t), ?e (t_month t)]"
    using r by (intro appendInt_two) auto
  have D: "appendInt (t_day t) 2 = [?d (t_day t), ?e (t_day t)]"
    using r d31 by (intro appendInt_two) auto
  have H: "appendInt (t_hour t) 2 = [?d (t_hour t), ?e (t_hour t)]"
    using r by (intro appendInt_two) auto
  have Mi: "appendInt (t_min t) 2 = [?d (t_min t), ?e (t_min t)]"
    using r by (intro appendInt_two) auto
  have S: "appendInt (t_sec t) 2 = [?d (t_sec t), ?e (t_sec t)]"
    using r by (intro appendInt_two) auto
  have pY: "parseUint [digit_char (nat (t_year t) div 1000),
      digit_char (nat (t_year t) div 100 mod 10), digit_char (nat (t_year t) div 10 mod 10),
      digit_char (nat (t_year t) mod 10)] 0 9999 = Some (t_year t)"
    using parseUint_appendInt [of "t_year t" 4 0 9999] y Y by simp
  have pMo: "parseUint [?d (t_month t), ?e (t_month t)] 1 12 = Some (t_month t)"
    using parseUint_appendInt [of "t_month t" 2 1 12] r Mo by simp
  have pD: "parseUint [?d (t_day t), ?e (t_day t)] 1 (daysIn (t_month t) (t_year t)) =
      Some (t_day t)"
    using parseUint_appendInt [of "t_day t" 2 1 "daysIn (t_month t) (t_year t)"] r D by simp
  have pH: "parseUint [?d (t_hour t), ?e (t_hour t)] 0 23 = Some (t_hour t)"
    using parseUint_appendInt [of "t_hour t" 2 0 23] r H by simp
  have pMi: "parseUint [?d (t_min t), ?e (t_min t)] 0 59 = Some (t_min t)"
    using parseUint_appendInt [of "t_min t" 2 0 59] r Mi by simp
  have pS: "parseUint [?d (t_sec t), ?e (t_sec t)] 0 59 = Some (t_sec t)"
    using parseUint_appendInt [of "t_sec t" 2 0 59] r S by simp
  have fmt: "time_Format t =
      [digit_char (nat (t_year t) div 1000), digit_char (nat (t_year t) div 100 mod 10),
       digit_char (nat (t_year t) div 10 mod 10), digit_char (nat (t_year t) mod 10), CHR ''-'',
       ?d (t_month t), ?e (t_month t), CHR ''-'', ?d (t_day t), ?e (t_day t), CHR ''T'',
       ?d (t_hour t), ?e (t_hour t), CHR '':'', ?d (t_min t), ?e (t_min t), CHR '':'',
       ?d (t_sec t), ?e (t_sec t)] @ ?Z"
    by (simp add: time_Format_def Y Mo D H Mi S)
  from format_zone_parse [OF o] have
    pf: "parse_frac ?Z = (0, ?Z)" and pz: "parse_zone ?Z = Some (t_offset t)" by simp_all
  show ?thesis
    unfolding fmt
    by (simp add: time_Parse_def slice_def pY pMo pD pH pMi pS pf pz)
qed

subsection \<open>decimal.Decimal\<close>

lemma trimTrailingZeros_decomp: "\<exists>j. s = trimTrailingZeros s @ replicate j CHR ''0''"
proof -
  let ?P = "\<lambda>c. c = CHR ''0''"
  have "rev s = takeWhile ?P (rev s) @ dropWhile ?P (rev s)" by simp
  then have "s = rev (dropWhile ?P (rev s)) @ rev (takeWhile ?P (rev s))"
    by (metis rev_append rev_rev_ident)
  moreover have "\<forall>c \<in> set (rev (takeWhile ?P (rev s))). c = CHR ''0''"
    by (auto dest: set_takeWhileD)
  then have "rev (takeWhile ?P (rev s)) = replicate (length (takeWhile ?P (rev s))) CHR ''0''"
    by (metis length_rev replicate_length_same)
  ultimately show ?thesis by (auto simp: trimTrailingZeros_def)
qed

lemma trimTrailingZeros_isDigit: "list_all isDigit s \<Longrightarrow> list_all isDigit (trimTrailingZeros s)"
  by (auto simp: trimTrailingZeros_def list_all_iff dest: set_dropWhileD)

lemma trimTrailingZeros_length: "length (trimTrailingZeros s) \<le> length s"
  by (simp add: trimTrailingZeros_def length_dropWhile_le [of _ "rev s", simplified])

lemma digits_value_trailing_zeros:
  "digits_value (xs @ replicate j CHR ''0'') = digits_value xs * 10 ^ j"
proof -
  have "digits_value (replicate j CHR ''0'') = 0"
    using digits_value_zeros [of j "[]"] by (simp add: digits_value_def)
  then show ?thesis by (simp add: digits_value_append)
qed

lemma parse_signed_isDigit:
  assumes "ds \<noteq> []" and "list_all isDigit ds"
  shows "parse_signed ds = Some (int (digits_value ds))"
    and "parse_signed (CHR ''-'' # ds) = Some (- int (digits_value ds))"
proof -
  from assms have "isDigit (hd ds)" by (cases ds) simp_all
  with isDigit_not_mark have "hd ds \<noteq> CHR ''-''" "hd ds \<noteq> CHR ''+''" by blast+
  with assms show "parse_signed ds = Some (int (digits_value ds))"
    by (simp add: parse_signed_def)
  from assms show "parse_signed (CHR ''-'' # ds) = Some (- int (digits_value ds))"
    by (simp add: parse_signed_def)
qed

lemma decimal_NewFromString_plain:
  assumes "parse_signed v = Some n" and "\<not> list_ex isE v" and "CHR ''.'' \<notin> set v"
  shows "decimal_NewFromString v = Some \<lparr>d_value = n, d_exp = 0\<rparr>"
proof -
  from assms(3) have "filter (\<lambda>c. c = CHR ''.'') v = []"
    by (auto simp: filter_empty_conv)
  with assms show ?thesis
    by (simp add: decimal_NewFromString_def Let_def in_int32_def)
qed

lemma decimal_NewFromString_point:
  assumes "parse_signed (a @ b) = Some n" and "\<not> list_ex isE (a @ b)"
    and "CHR ''.'' \<notin> set a" and "CHR ''.'' \<notin> set b" and "int (length b) \<le> 2 ^ 31"
  shows "decimal_NewFromString (a @ CHR ''.'' # b) = Some \<lparr>d_value = n, d_exp = - int (length b)\<rparr>"
proof -
  let ?v = "a @ CHR ''.'' # b"
  have noE: "\<not> list_ex isE ?v" using assms(2) by (simp add: isE_def)
  have tw: "takeWhile (\<lambda>c. c \<noteq> CHR ''.'') ?v = a"
    using assms(3) by (auto simp: takeWhile_tail takeWhile_eq_all_conv)
  have fa: "filter (\<lambda>c. c = CHR ''.'') a = []" using assms(3) by (auto simp: filter_empty_conv)
  have fb: "filter (\<lambda>c. c = CHR ''.'') b = []" using assms(4) by (auto simp: filter_empty_conv)
  have cnt: "length (filter (\<lambda>c. c = CHR ''.'') ?v) = 1" using fa fb by simp
  have r: "in_int32 (0 - int (length b))" using assms(5) by (simp add: in_int32_def)
  show ?thesis
    using noE tw cnt r assms(1)
    by (simp add: decimal_NewFromString_def Let_def in_int32_def)
qed

lemma Itoa_chars: "c \<in> set (Itoa i) \<Longrightarrow> isDigit c \<or> c = CHR ''-''"
  using digits_isDigit [of "nat i"] digits_isDigit [of "nat (- i)"]
  by (auto simp: Itoa_def list_all_iff split: if_splits)

lemma parse_signed_Itoa: "parse_signed (Itoa i) = Some i"
  by (simp add: Itoa_def parse_signed_digits parse_signed_minus_digits)

lemma no_marks:
  assumes "\<forall>c \<in> set s. isDigit c \<or> c = CHR ''-''"
  shows "\<not> list_ex isE s" and "CHR ''.'' \<notin> set s"
proof -
  have "\<not> isE CHR ''-''" "CHR ''-'' \<noteq> CHR ''.''" by (simp_all add: isE_def)
  with assms isDigit_not_mark show "\<not> list_ex isE s" and "CHR ''.'' \<notin> set s"
    by (auto simp: list_ex_iff)
qed

lemma decimal_roundtrip_nonneg_exp:
  assumes "0 \<le> d_exp d"
  shows "decimal_NewFromString (decimal_String d) = Some \<lparr>d_value = rescale d 0, d_exp = 0\<rparr>"
proof -
  have s: "decimal_String d = Itoa (rescale d 0)" using assms by (simp add: decimal_String_def)
  have c: "\<forall>c \<in> set (Itoa (rescale d 0)). isDigit c \<or> c = CHR ''-''"
    using Itoa_chars by blast
  show ?thesis
    unfolding s
    by (rule decimal_NewFromString_plain [OF parse_signed_Itoa no_marks [OF c]])
qed

lemma decimal_roundtrip_neg_exp:
  assumes neg: "d_exp d < 0" and rng: "in_int32 (d_exp d)"
  shows "\<exists>n j. decimal_NewFromString (decimal_String d) =
            Some \<lparr>d_value = n, d_exp = d_exp d + int j\<rparr> \<and> n * 10 ^ j = d_value d"
proof -
  define N where "N = nat \<bar>d_value d\<bar>"
  define str where "str = digits N"
  define k where "k = nat (- d_exp d)"
  define I where "I = (if length str > k then take (length str - k) str else ''0'')"
  define FU where "FU = (if length str > k then drop (length str - k) str
                         else replicate (k - length str) CHR ''0'' @ str)"
  define F where "F = trimTrailingZeros FU"
  define sg where "sg = (if d_value d < 0 then ''-'' else [])"
  define s where "s = (if d_value d < 0 then - 1 else 1 :: int)"
  have str_dig: "list_all isDigit str" "str \<noteq> []"
    by (simp_all add: str_def digits_isDigit digits_not_Nil)
  have zero: "isDigit CHR ''0''" by (simp add: isDigit_def)
  have I_dig: "list_all isDigit I"
    using str_dig zero by (auto simp: I_def list_all_iff dest: in_set_takeD)
  have I_ne: "I \<noteq> []" using str_dig by (auto simp: I_def)
  have FU_dig: "list_all isDigit FU"
    using str_dig zero by (auto simp: FU_def list_all_iff dest: in_set_dropD)
  have FU_len: "length FU = k" by (auto simp: FU_def)
  have val: "digits_value (I @ FU) = N"
  proof (cases "length str > k")
    case True
    then show ?thesis by (simp add: I_def FU_def str_def digits_value_digits)
  next
    case False
    then have "I @ FU = replicate (Suc (k - length str)) CHR ''0'' @ str"
      by (simp add: I_def FU_def)
    then show ?thesis by (simp only: digits_value_zeros) (simp add: str_def digits_value_digits)
  qed
  obtain j where j: "FU = F @ replicate j CHR ''0''"
    using trimTrailingZeros_decomp [of FU] by (auto simp: F_def)
  have F_dig: "list_all isDigit F" using FU_dig by (simp add: F_def trimTrailingZeros_isDigit)
  have len: "length F + j = k" using j FU_len by (metis length_append length_replicate)
  have "digits_value ((I @ F) @ replicate j CHR ''0'') = N" using val j by simp
  then have dv: "digits_value (I @ F) * 10 ^ j = N" by (simp only: digits_value_trailing_zeros)
  have sN: "s * int N = d_value d" by (auto simp: s_def N_def)
  have string: "decimal_String d = sg @ I @ (if F \<noteq> [] then ''.'' @ F else [])"
    using neg
    by (simp add: decimal_String_def Let_def N_def [symmetric] str_def [symmetric]
        k_def [symmetric] I_def [symmetric] FU_def [symmetric] F_def [symmetric] sg_def)
  have IF_dig: "list_all isDigit (I @ F)" "I @ F \<noteq> []" using I_dig F_dig I_ne by simp_all
  have ps: "parse_signed (sg @ I @ F) = Some (s * int (digits_value (I @ F)))"
    using parse_signed_isDigit [OF IF_dig(2) IF_dig(1)] by (simp add: sg_def s_def)
  have chars: "\<forall>c \<in> set (sg @ I @ F). isDigit c \<or> c = CHR ''-''"
    using I_dig F_dig by (auto simp: sg_def list_all_iff)
  have k31: "int k \<le> 2 ^ 31" using rng neg by (simp add: k_def in_int32_def)
  have prod: "s * int (digits_value (I @ F)) * 10 ^ j = d_value d"
    using dv sN by (metis (no_types) mult.assoc of_nat_mult of_nat_numeral of_nat_power)
  have expo: "d_exp d + int j = - int (length F)" using len neg by (simp add: k_def)
  show ?thesis
  proof (cases "F = []")
    case True
    with len have jk: "j = k" by simp
    from True ps have "parse_signed (sg @ I) = Some (s * int (digits_value (I @ F)))" by simp
    moreover from chars True have "\<forall>c \<in> set (sg @ I). isDigit c \<or> c = CHR ''-''" by simp
    ultimately have "decimal_NewFromString (sg @ I) =
        Some \<lparr>d_value = s * int (digits_value (I @ F)), d_exp = 0\<rparr>"
      using no_marks by (intro decimal_NewFromString_plain) blast+
    moreover have "d_exp d + int j = 0" using expo True by simp
    ultimately show ?thesis using string True prod by auto
  next
    case False
    have a: "CHR ''.'' \<notin> set (sg @ I)" "CHR ''.'' \<notin> set F"
      using no_marks(2) [OF chars] by simp_all
    have e: "\<not> list_ex isE ((sg @ I) @ F)" using no_marks(1) [OF chars] by simp
    have l: "int (length F) \<le> 2 ^ 31" using len k31 by simp
    from ps have ps': "parse_signed ((sg @ I) @ F) = Some (s * int (digits_value (I @ F)))"
      by simp
    from decimal_NewFromString_point [OF ps' e a l]
    have "decimal_NewFromString ((sg @ I) @ CHR ''.'' # F) =
        Some \<lparr>d_value = s * int (digits_value (I @ F)), d_exp = - int (length F)\<rparr>" .
    with string False prod expo show ?thesis
      by (intro exI [of _ "s * int (digits_value (I @ F))"] exI [of _ j]) simp
  qed
qed

lemma decimal_roundtrip:
  assumes "in_int32 (d_exp d)"
  shows "\<exists>d'. decimal_NewFromString (decimal_String d) = Some d' \<and> decimal_Equal d' d"
proof (cases "0 \<le> d_exp d")
  case True
  have "decimal_Equal \<lparr>d_value = rescale d 0, d_exp = 0\<rparr> d"
    using True by (simp add: decimal_Equal_def decimal_Cmp_def Let_def rescale_def min_def)
  with decimal_roundtrip_nonneg_exp [OF True] show ?thesis by blast
next
  case False
  then have neg: "d_exp d < 0" by simp
  from decimal_roundtrip_neg_exp [OF neg assms] obtain n j where
    p: "decimal_NewFromString (decimal_String d) = Some \<lparr>d_value = n, d_exp = d_exp d + int j\<rparr>"
    and v: "n * 10 ^ j = d_value d" by blast
  have "decimal_Equal \<lparr>d_value = n, d_exp = d_exp d + int j\<rparr> d"
    using v by (auto simp: decimal_Equal_def decimal_Cmp_def Let_def rescale_def min_def)
  with p show ?thesis by blast
qed

subsection \<open>ToString followed by FromString\<close>

lemma time_Equal_nsec:
  "time_Equal (t\<lparr>t_nsec := 0\<rparr>) t \<longleftrightarrow> t_nsec t = 0"
  by (auto simp: time_Equal_def instant_def)

text \<open>
  C7, as the source has it. \<open>FromString (ToString ())\<close> leaves a cell holding a
  value equal to the one it held, under the variant's own \<open>Equal\<close>, for every
  Text cell, every Integer cell within the 64-bit \<open>int\<close>, every Boolean cell
  and every Decimal cell with a 32-bit exponent. A Timestamp cell with a year
  from 0 to 9999 and a zone offset of whole minutes within a day is left
  holding its value without the fraction of the second, since the layout
  RFC3339 prints none: the value is equal to the original exactly
  when the original has no fraction of a second.
\<close>

theorem FromString_ToString_roundtrip:
  "Equal (FromString (StringField v k) (ToString (StringField v k))) (Some (StringField v k)) \<and>
   (minInt \<le> i \<and> i \<le> maxInt \<longrightarrow>
      Equal (FromString (IntegerField i k) (ToString (IntegerField i k)))
        (Some (IntegerField i k))) \<and>
   Equal (FromString (BoolField b k st) (ToString (BoolField b k st)))
     (Some (BoolField b k st)) \<and>
   (in_int32 (d_exp d) \<longrightarrow>
      Equal (FromString (DecimalField d k) (ToString (DecimalField d k)))
        (Some (DecimalField d k))) \<and>
   (valid_Time t \<and> 0 \<le> t_year t \<and> t_year t \<le> 9999 \<and>
    t_offset t mod 60 = 0 \<and> \<bar>t_offset t\<bar> < 86400 \<longrightarrow>
      FromString (TimeField t k) (ToString (TimeField t k)) = TimeField (t\<lparr>t_nsec := 0\<rparr>) k \<and>
      (Equal (FromString (TimeField t k) (ToString (TimeField t k))) (Some (TimeField t k))
         \<longleftrightarrow> t_nsec t = 0))"
proof (intro conjI impI)
  show "Equal (FromString (StringField v k) (ToString (StringField v k)))
      (Some (StringField v k))"
    by (simp add: checkAndDoSafeCompare_def sameCompareTypes_def)
next
  assume "minInt \<le> i \<and> i \<le> maxInt"
  then have "Atoi (Itoa i) = (i, None)" by (simp add: Atoi_Itoa)
  then show "Equal (FromString (IntegerField i k) (ToString (IntegerField i k)))
      (Some (IntegerField i k))"
    by (simp add: checkAndDoSafeCompare_def sameCompareTypes_def)
next
  show "Equal (FromString (BoolField b k st) (ToString (BoolField b k st)))
      (Some (BoolField b k st))"
    by (simp add: ParseBool_FormatBool checkAndDoSafeCompare_def sameCompareTypes_def)
next
  assume "in_int32 (d_exp d)"
  then obtain d' where "decimal_NewFromString (decimal_String d) = Some d'"
    and "decimal_Equal d' d"
    using decimal_roundtrip by blast
  then show "Equal (FromString (DecimalField d k) (ToString (DecimalField d k)))
      (Some (DecimalField d k))"
    by (simp add: checkAndDoSafeCompare_def sameCompareTypes_def)
next
  assume h: "valid_Time t \<and> 0 \<le> t_year t \<and> t_year t \<le> 9999 \<and>
    t_offset t mod 60 = 0 \<and> \<bar>t_offset t\<bar> < 86400"
  then have p: "time_Parse (time_Format t) = Some (t\<lparr>t_nsec := 0\<rparr>)"
    by (intro time_Parse_Format) simp_all
  then show "FromString (TimeField t k) (ToString (TimeField t k)) =
      TimeField (t\<lparr>t_nsec := 0\<rparr>) k"
    by simp
  from p show "Equal (FromString (TimeField t k) (ToString (TimeField t k)))
      (Some (TimeField t k)) \<longleftrightarrow> t_nsec t = 0"
    by (simp add: checkAndDoSafeCompare_def sameCompareTypes_def time_Equal_nsec)
qed

theorem FromString_ToString_roundtrip_witness:
  "Equal (FromString (IntegerField (- 17) example_key) (ToString (IntegerField (- 17) example_key)))
     (Some (IntegerField (- 17) example_key)) \<and>
   Equal (FromString (DecimalField example_decimal example_key)
            (ToString (DecimalField example_decimal example_key)))
     (Some (DecimalField example_decimal example_key)) \<and>
   Equal (FromString (TimeField (example_time\<lparr>t_nsec := 0\<rparr>) example_key)
            (ToString (TimeField (example_time\<lparr>t_nsec := 0\<rparr>) example_key)))
     (Some (TimeField (example_time\<lparr>t_nsec := 0\<rparr>) example_key))"
proof -
  let ?t = "example_time\<lparr>t_nsec := 0\<rparr>"
  have i: "minInt \<le> - 17 \<and> - 17 \<le> maxInt" by (simp add: minInt_def maxInt_def)
  have d: "in_int32 (d_exp example_decimal)" by (simp add: example_decimal_def in_int32_def)
  have t: "valid_Time ?t \<and> 0 \<le> t_year ?t \<and> t_year ?t \<le> 9999 \<and>
    t_offset ?t mod 60 = 0 \<and> \<bar>t_offset ?t\<bar> < 86400"
    by (simp add: example_time_def valid_Time_def daysIn_def)
  have n: "t_nsec ?t = 0" by simp
  from FromString_ToString_roundtrip
    [where v = "[]" and k = example_key and i = "- 17" and b = True and st = True
       and d = example_decimal and t = ?t] i d t n
  show ?thesis by blast
qed

text \<open>
  The claim C7 as the specification states it fails for a Timestamp cell:
  half a second past 06:07:08 prints as \<open>2024-03-05T06:07:08+01:00\<close>, which
  parses to 06:07:08 sharp, an instant before the original.
\<close>

theorem FromString_ToString_counterexample:
  "valid_Time example_time \<and>
   ToString (TimeField example_time example_key) = ''2024-03-05T06:07:08+01:00'' \<and>
   FromString (TimeField example_time example_key) ''2024-03-05T06:07:08+01:00'' =
     TimeField (example_time\<lparr>t_nsec := 0\<rparr>) example_key \<and>
   \<not> Equal (FromString (TimeField example_time example_key)
              (ToString (TimeField example_time example_key)))
       (Some (TimeField example_time example_key))"
proof -
  have v: "valid_Time example_time" by (simp add: example_time_def valid_Time_def daysIn_def)
  have f: "time_Format example_time = ''2024-03-05T06:07:08+01:00''"
    by (simp add: time_Format_def example_time_def appendInt_def format_zone_def digits.simps
        digit_char_def)
  have p: "time_Parse ''2024-03-05T06:07:08+01:00'' = Some (example_time\<lparr>t_nsec := 0\<rparr>)"
    by (simp add: time_Parse_def parseUint_def slice_def digits_value_def digit_val_def
        isDigit_def less_eq_char_def daysIn_def isLeap_def parse_frac_def parse_zone_def
        example_time_def)
  have e: "\<not> time_Equal (example_time\<lparr>t_nsec := 0\<rparr>) example_time"
    by (simp add: time_Equal_def instant_def example_time_def)
  from v f p e show ?thesis
    by (simp add: checkAndDoSafeCompare_def sameCompareTypes_def)
qed

section \<open>Default wrapper: claims\<close>

text \<open>
  C8. \<open>IsDefault\<close> is true exactly when the baseline field's \<open>Equal\<close>, applied to
  the wrapped field, is true and the explicitly-set flag is false. When the
  flag is true, \<open>IsDefault\<close> is false, whatever the values.
\<close>

theorem IsDefault_iff:
  "(IsDefault s \<longleftrightarrow>
      Equal (DefaultField (fwd_Default s)) (fwd_Field s) \<and> \<not> ExplicitlySet (fwd_Default s)) \<and>
   (ExplicitlySet (fwd_Default s) \<longrightarrow> \<not> IsDefault s)"
  by (simp add: IsDefault_def MatchesDefault_def DefaultField_def)

theorem IsDefault_iff_witness:
  "IsDefault (NewFieldWDefault (Some (IntegerField 5 FieldKeyNil))
               (NewDefault False (IntegerField 5 FieldKeyNil))) \<and>
   \<not> IsDefault (NewFieldWDefault (Some (IntegerField 5 FieldKeyNil))
                 (NewDefault True (IntegerField 5 FieldKeyNil)))"
proof -
  let ?f = "Some (IntegerField 5 FieldKeyNil)"
  let ?unset = "NewFieldWDefault ?f (NewDefault False (IntegerField 5 FieldKeyNil))"
  let ?set = "NewFieldWDefault ?f (NewDefault True (IntegerField 5 FieldKeyNil))"
  have eq: "Equal (DefaultField (fwd_Default ?unset)) (fwd_Field ?unset)"
    by (simp add: NewFieldWDefault_def NewDefault_def DefaultField_def checkAndDoSafeCompare_def
        sameCompareTypes_def)
  have unset: "\<not> ExplicitlySet (fwd_Default ?unset)"
    by (simp add: NewFieldWDefault_def NewDefault_def ExplicitlySet_def)
  have set: "ExplicitlySet (fwd_Default ?set)"
    by (simp add: NewFieldWDefault_def NewDefault_def ExplicitlySet_def)
  from IsDefault_iff [of ?unset] eq unset have "IsDefault ?unset" by blast
  moreover from IsDefault_iff [of ?set] set have "\<not> IsDefault ?set" by blast
  ultimately show ?thesis by blast
qed

section \<open>Conditional gate: claims\<close>

lemma runGauntlet_all: "runGauntlet ws v = (\<forall>w \<in> set ws. w () v)"
  by (induction ws) auto

lemma MeetsLoop_all:
  "MeetsLoop ps v = (\<forall>p \<in> set ps. IsCandidate p v \<longrightarrow> (\<forall>w \<in> set (Gauntlet p). w () v))"
  by (induction ps) (auto simp: runGauntlet_all)

text \<open>
  C5. \<open>Meets\<close> returns false exactly when some prerequisite whose candidacy
  predicate holds of the value has a guard that fails on the value. When no
  prerequisite is a candidate, \<open>Meets\<close> returns true.
\<close>

theorem Meets_rejects_iff:
  "(\<not> Meets c v \<longleftrightarrow>
      (\<exists>p \<in> set (prereqs c). IsCandidate p v \<and> (\<exists>w \<in> set (Gauntlet p). \<not> w () v))) \<and>
   ((\<forall>p \<in> set (prereqs c). \<not> IsCandidate p v) \<longrightarrow> Meets c v)"
  by (auto simp: Meets_def MeetsLoop_all)

theorem Meets_rejects_iff_witness:
  "Meets example_gate 2 \<and> \<not> Meets example_gate 1"
proof -
  have none: "\<forall>p \<in> set (prereqs example_gate). \<not> IsCandidate p 2"
    by (simp add: example_gate_def Conditions_def)
  have some: "\<exists>p \<in> set (prereqs example_gate). IsCandidate p 1 \<and> (\<exists>w \<in> set (Gauntlet p). \<not> w () 1)"
    by (simp add: example_gate_def Conditions_def)
  from Meets_rejects_iff [of example_gate 2] none have "Meets example_gate 2" by blast
  moreover from Meets_rejects_iff [of example_gate 1] some have "\<not> Meets example_gate 1" by blast
  ultimately show ?thesis by blast
qed




section \<open>State machines: claims\<close>

subsection \<open>What the constructor stores\<close>

lemma PopulateRing_length: "length (Ring (PopulateRing sm vs)) = length (Ring sm)"
  by (induction vs arbitrary: sm) simp_all

lemma PopulateRing_ValueCache_other:
  "k \<notin> Id_S ` set vs \<Longrightarrow> ValueCache (PopulateRing sm vs) k = ValueCache sm k"
  by (induction vs arbitrary: sm) simp_all

lemma PopulateRing_ValueCache:
  "distinct (map Id_S vs) \<Longrightarrow> v \<in> set vs \<Longrightarrow>
   ValueCache (PopulateRing sm vs) (Id_S v) = Some (StateValue_S v)"
proof (induction vs arbitrary: sm)
  case Nil
  then show ?case by simp
next
  case (Cons w vs)
  show ?case
  proof (cases "v = w")
    case True
    with Cons.prems show ?thesis
      by (simp add: PopulateRing_ValueCache_other)
  next
    case False
    with Cons show ?thesis by simp
  qed
qed

lemma PopulateRing_dom:
  "dom (ValueCache (PopulateRing sm vs)) = dom (ValueCache sm) \<union> Id_S ` set vs"
  by (induction vs arbitrary: sm) auto

lemma PopulateRing_addr_other:
  "k \<notin> Id_S ` set vs \<Longrightarrow> IdRingAddressCache (PopulateRing sm vs) k = IdRingAddressCache sm k"
  by (induction vs arbitrary: sm) simp_all

lemma PopulateRing_ring_low:
  "ring_pos sm + length vs \<le> length (Ring sm) \<Longrightarrow> j < ring_pos sm \<Longrightarrow>
   Ring (PopulateRing sm vs) ! j = Ring sm ! j"
proof (induction vs arbitrary: sm)
  case Nil
  then show ?case by simp
next
  case (Cons w vs)
  show ?case
  proof (cases vs)
    case Nil
    with Cons.prems show ?thesis by simp
  next
    case (Cons u us)
    with Cons.prems have "Suc (ring_pos sm) < length (Ring sm)" by simp
    with Cons.prems Cons.IH [of "sm\<lparr>Ring := (Ring sm)[ring_pos sm := RState w],
           IdRingAddressCache := (IdRingAddressCache sm)(Id_S w \<mapsto> Some (ring_pos sm)),
           ValueCache := (ValueCache sm)(Id_S w \<mapsto> StateValue_S w),
           ring_pos := ring_Next sm\<rparr>"]
    show ?thesis by (simp add: ring_Next_def)
  qed
qed

lemma PopulateRing_cell:
  "ring_pos sm + length vs \<le> length (Ring sm) \<Longrightarrow> distinct (map Id_S vs) \<Longrightarrow> v \<in> set vs \<Longrightarrow>
   \<exists>a. IdRingAddressCache (PopulateRing sm vs) (Id_S v) = Some (Some a) \<and>
       ring_pos sm \<le> a \<and> a < length (Ring sm) \<and> Ring (PopulateRing sm vs) ! a = RState v"
proof (induction vs arbitrary: sm)
  case Nil
  then show ?case by simp
next
  case (Cons w vs)
  let ?sm1 = "sm\<lparr>Ring := (Ring sm)[ring_pos sm := RState w],
           IdRingAddressCache := (IdRingAddressCache sm)(Id_S w \<mapsto> Some (ring_pos sm)),
           ValueCache := (ValueCache sm)(Id_S w \<mapsto> StateValue_S w),
           ring_pos := ring_Next sm\<rparr>"
  have step: "PopulateRing sm (w # vs) = PopulateRing ?sm1 vs" by simp
  have p: "ring_pos sm < length (Ring sm)" using Cons.prems by simp
  show ?case
  proof (cases "v = w")
    case True
    have notin: "Id_S w \<notin> Id_S ` set vs" using Cons.prems by simp
    have addr: "IdRingAddressCache (PopulateRing ?sm1 vs) (Id_S w) = Some (Some (ring_pos sm))"
      using notin by (simp add: PopulateRing_addr_other)
    have cell: "Ring (PopulateRing ?sm1 vs) ! ring_pos sm = RState w"
    proof (cases vs)
      case Nil
      with p show ?thesis by simp
    next
      case (Cons u us)
      with \<open>ring_pos sm + length (w # vs) \<le> length (Ring sm)\<close>
      have "Suc (ring_pos sm) < length (Ring sm)" by simp
      then have "ring_pos ?sm1 = Suc (ring_pos sm)" by (simp add: ring_Next_def)
      with PopulateRing_ring_low [of ?sm1 vs "ring_pos sm"] Cons.prems p
      show ?thesis by simp
    qed
    from addr cell p True step show ?thesis by auto
  next
    case False
    with Cons.prems have v: "v \<in> set vs" by simp
    then obtain u us where vs: "vs = u # us" by (cases vs) auto
    with Cons.prems have "Suc (ring_pos sm) < length (Ring sm)" by simp
    then have pos: "ring_pos ?sm1 = Suc (ring_pos sm)" by (simp add: ring_Next_def)
    with Cons.prems have "ring_pos ?sm1 + length vs \<le> length (Ring ?sm1)" by simp
    moreover have "distinct (map Id_S vs)" using Cons.prems by simp
    ultimately obtain a where
      "IdRingAddressCache (PopulateRing ?sm1 vs) (Id_S v) = Some (Some a)"
      "ring_pos ?sm1 \<le> a" "a < length (Ring ?sm1)" "Ring (PopulateRing ?sm1 vs) ! a = RState v"
      using Cons.IH [of ?sm1] v by blast
    with pos step show ?thesis by auto
  qed
qed

lemma lookupValueCacheId_unique:
  assumes "k0 \<in> set keys" and "cache k0 = Some v0" and "equals v0 in0"
    and uniq: "\<And>k v. cache k = Some v \<Longrightarrow> equals v in0 \<Longrightarrow> k = k0"
  shows "lookupValueCacheId cache keys in0 equals = k0"
  using assms(1)
proof (induction keys)
  case Nil
  then show ?case by simp
next
  case (Cons k ks)
  show ?case
  proof (cases "cache k")
    case None
    with assms(2) have "k \<noteq> k0" by auto
    with Cons None show ?thesis by simp
  next
    case (Some v)
    show ?thesis
    proof (cases "equals v in0")
      case True
      with Some uniq have "k = k0" by blast
      with Some True show ?thesis by simp
    next
      case False
      with Some assms(2,3) have "k \<noteq> k0" by auto
      with Cons Some False show ?thesis by simp
    qed
  qed
qed

lemma NewStateMachine_cell:
  assumes "distinct (map Id_S states)" "s \<in> set states"
  shows "\<exists>a. IdRingAddressCache (NewStateMachine states) (Id_S s) = Some (Some a) \<and>
             ring_Value (NewStateMachine states) a = RState s"
proof -
  let ?sm0 = "\<lparr>Ring = replicate (length states) RNil, ring_pos = 0, Start = Id_S (hd states),
              IdRingAddressCache = Map.empty, ValueCache = Map.empty\<rparr> :: ('a, 'b) StateMachine"
  from assms have ne: "states \<noteq> []" by auto
  have "ring_pos ?sm0 + length states \<le> length (Ring ?sm0)" by simp
  from PopulateRing_cell [OF this assms]
  obtain a where "IdRingAddressCache (PopulateRing ?sm0 states) (Id_S s) = Some (Some a)"
    "a < length (Ring ?sm0)" "Ring (PopulateRing ?sm0 states) ! a = RState s" by blast
  with ne show ?thesis
    by (auto simp: NewStateMachine_def ring_Value_def PopulateRing_length)
qed

lemma NewStateMachine_ValueCache:
  assumes "distinct (map Id_S states)" "s \<in> set states"
  shows "ValueCache (NewStateMachine states) (Id_S s) = Some (StateValue_S s)"
  using assms by (auto simp: NewStateMachine_def PopulateRing_ValueCache)

lemma NewStateMachine_dom:
  "dom (ValueCache (NewStateMachine states)) = Id_S ` set states"
  by (auto simp: NewStateMachine_def PopulateRing_dom)

lemma NewStateMachine_lookup:
  assumes d: "distinct (map Id_S states)" and s: "s \<in> set states"
    and vis: "visits (ValueCache (NewStateMachine states)) keys"
    and eq: "equals (StateValue_S s) in0"
    and uniq: "\<forall>u \<in> set states. equals (StateValue_S u) in0 \<longrightarrow> u = s"
  shows "lookupValueCacheId (ValueCache (NewStateMachine states)) keys in0 equals = Id_S s"
proof (rule lookupValueCacheId_unique)
  show "Id_S s \<in> set keys" using vis s by (simp add: visits_def NewStateMachine_dom)
  show "ValueCache (NewStateMachine states) (Id_S s) = Some (StateValue_S s)"
    using d s by (rule NewStateMachine_ValueCache)
  show "equals (StateValue_S s) in0" by (rule eq)
  fix k v
  assume kv: "ValueCache (NewStateMachine states) k = Some v" and e: "equals v in0"
  then have "k \<in> Id_S ` set states" using NewStateMachine_dom [of states] by blast
  then obtain u where u: "u \<in> set states" "k = Id_S u" by blast
  with d kv have "v = StateValue_S u" by (simp add: NewStateMachine_ValueCache)
  with e uniq u show "k = Id_S s" by blast
qed

subsection \<open>The same for the conditional constructor\<close>













subsection \<open>The plain machine at a terminal state\<close>

text \<open>
  C1, as the source has it. In a machine built by \<open>NewStateMachine\<close> from
  states with distinct ids, let \<open>C\<close> be a terminal state with a non-empty id,
  and let the current value be equal, under the caller's equality, to the
  payload of \<open>C\<close> and of no other state. Then \<open>ProcessInMachine\<close> fails with
  \<open>SameStateNoUpdate\<close>, in whatever order the value cache is visited and
  whatever the test data: the terminal state evaluates to its own id, and the
  plain machine reports a transition to the current id as this error.
\<close>

theorem terminal_state_SameStateNoUpdate:
  assumes "distinct (map Id_S states)" and "C \<in> set states" and "Terminal C" and "Id_S C \<noteq> []"
    and "visits (ValueCache (NewStateMachine states)) keys"
    and "equals (StateValue_S C) in0"
    and "\<forall>u \<in> set states. equals (StateValue_S u) in0 \<longrightarrow> u = C"
  shows "ProcessInMachine (NewStateMachine states) keys in0 testData equals = Inl SameStateNoUpdate"
proof -
  have look: "lookupValueCacheId (ValueCache (NewStateMachine states)) keys in0 equals = Id_S C"
    using assms(1,2,5,6,7)
    by (rule NewStateMachine_lookup [where equals = equals and ?in0.0 = in0])
  obtain a where a: "IdRingAddressCache (NewStateMachine states) (Id_S C) = Some (Some a)"
    "ring_Value (NewStateMachine states) a = RState C"
    using NewStateMachine_cell assms(1,2) by blast
  show ?thesis
    using look a assms(3,4) by (simp add: ProcessInMachine_def EvaluateTransition_def)
qed

theorem terminal_state_SameStateNoUpdate_witness:
  "ProcessInMachine (NewStateMachine [state_A, state_B, state_C]) [''C'', ''A'', ''B'']
     (Some ''c'') ''stop'' BasicEquals = Inl SameStateNoUpdate"
proof (rule terminal_state_SameStateNoUpdate [where C = state_C])
  show "distinct (map Id_S [state_A, state_B, state_C])"
    by (simp add: state_A_def state_B_def state_C_def)
  show "state_C \<in> set [state_A, state_B, state_C]" by simp
  show "Terminal state_C" by (simp add: state_C_def)
  show "Id_S state_C \<noteq> []" by (simp add: state_C_def)
  show "visits (ValueCache (NewStateMachine [state_A, state_B, state_C])) [''C'', ''A'', ''B'']"
    by (auto simp: visits_def NewStateMachine_dom state_A_def state_B_def state_C_def)
  show "BasicEquals (StateValue_S state_C) (Some ''c'')"
    by (simp add: BasicEquals_def state_C_def)
  show "\<forall>u \<in> set [state_A, state_B, state_C].
          BasicEquals (StateValue_S u) (Some ''c'') \<longrightarrow> u = state_C"
    by (simp add: BasicEquals_def state_A_def state_B_def state_C_def)
qed

text \<open>
  The claim C1 as the specification states it, on the three-state ring of the
  specification: from the payload of the terminal state \<open>C\<close> and the input
  \<open>go\<close> the machine does not return the payload of \<open>C\<close> but fails.
\<close>

theorem terminal_state_counterexample:
  "Terminal state_C \<and>
   ProcessInMachine (NewStateMachine [state_A, state_B, state_C]) [''A'', ''B'', ''C'']
     (StateValue_S state_C) ''go'' BasicEquals = Inl SameStateNoUpdate"
  by (simp add: NewStateMachine_def state_A_def state_B_def state_C_def
      ring_Next_def ring_Value_def ProcessInMachine_def EvaluateTransition_def BasicEquals_def)

lemma ring_ABC_steps:
  "ProcessInMachine (NewStateMachine [state_A, state_B, state_C]) [''A'', ''B'', ''C'']
     (Some ''a'') ''go'' BasicEquals = Inr (Some ''b'') \<and>
   ProcessInMachine (NewStateMachine [state_A, state_B, state_C]) [''A'', ''B'', ''C'']
     (Some ''b'') ''go'' BasicEquals = Inr (Some ''c'') \<and>
   ProcessInMachine (NewStateMachine [state_A, state_B, state_C]) [''A'', ''B'', ''C'']
     (Some ''a'') ''stop'' BasicEquals = Inl NoValidTransitions \<and>
   ProcessInMachine (NewStateMachine [state_A, state_B, state_C]) [''A'', ''B'', ''C'']
     (Some ''x'') ''go'' BasicEquals = Inl IdDoesNotExist"
  by (simp add: NewStateMachine_def state_A_def state_B_def state_C_def
      ring_Next_def ring_Value_def ProcessInMachine_def EvaluateTransition_def BasicEquals_def)

subsection \<open>The conditional machine\<close>






end
